theory Spec2Isabelle
  imports Main
begin

section \<open>Values carried by kernel messages\<close>

text \<open>
  A kernel message reaches \<open>NotebookAPIHandler.on_recv\<close> as a decoded JSON document:
  nested dictionaries with string keys, lists, strings, integers, booleans and
  \<open>None\<close>. Floating-point payloads are left out of the value type; the handler only
  tests a payload for truth and a float behaves there like the integer of the same
  zero-ness. A dictionary is an association list whose first binding for a key is the
  one that counts.
\<close>

datatype pyval =
    PNone
  | PBool bool
  | PInt int
  | PStr string
  | PList "pyval list"
  | PDict "(string \<times> pyval) list"

text \<open>
  Exceptions are values. \<open>KeyError\<close> and \<open>TypeError\<close> are what subscripting and
  \<open>str.join\<close> raise; \<open>InvalidStateError\<close> is what \<open>Future.set_result\<close> raises
  on a future that already has a result; \<open>ExternalError\<close> stands for whatever a
  collaborator outside this module (the kernel pool, the kernel client, the request
  translation helpers, the web framework) raises.
\<close>

datatype py_error = KeyError string | TypeError | InvalidStateError | ExternalError string

definition py_bind :: "py_error + 'a \<Rightarrow> ('a \<Rightarrow> py_error + 'b) \<Rightarrow> py_error + 'b" where
  "py_bind r f = (case r of Inl e \<Rightarrow> Inl e | Inr v \<Rightarrow> f v)"

text \<open>\<open>v[k]\<close> for a string key: only a dictionary can be subscripted by a string.\<close>

fun py_getitem :: "pyval \<Rightarrow> string \<Rightarrow> py_error + pyval" where
  "py_getitem (PDict kvs) k =
     (case map_of kvs k of None \<Rightarrow> Inl (KeyError k) | Some v \<Rightarrow> Inr v)"
| "py_getitem PNone k = Inl TypeError"
| "py_getitem (PBool b) k = Inl TypeError"
| "py_getitem (PInt i) k = Inl TypeError"
| "py_getitem (PStr s) k = Inl TypeError"
| "py_getitem (PList xs) k = Inl TypeError"

text \<open>\<open>v[a][b]\<close>, evaluated left to right.\<close>

definition py_getitem2 :: "pyval \<Rightarrow> string \<Rightarrow> string \<Rightarrow> py_error + pyval" where
  "py_getitem2 v a b = py_bind (py_getitem v a) (\<lambda>x. py_getitem x b)"

text \<open>Truth value of an object in a condition.\<close>

fun py_truthy :: "pyval \<Rightarrow> bool" where
  "py_truthy PNone = False"
| "py_truthy (PBool b) = b"
| "py_truthy (PInt i) = (i \<noteq> 0)"
| "py_truthy (PStr s) = (s \<noteq> [])"
| "py_truthy (PList xs) = (xs \<noteq> [])"
| "py_truthy (PDict kvs) = (kvs \<noteq> [])"

text \<open>\<open>''.join(xs)\<close>: raises \<open>TypeError\<close> at the first item that is not a string.\<close>

fun py_join :: "pyval list \<Rightarrow> py_error + string" where
  "py_join [] = Inr []"
| "py_join (PStr s # vs) = py_bind (py_join vs) (\<lambda>r. Inr (s @ r))"
| "py_join (v # vs) = Inl TypeError"

text \<open>
  A replacement field \<open>{}\<close> of \<open>str.format\<close> inserts a string as it is and the
  \<open>str()\<close> of any other object. The text Python prints for a non-string object is
  the interpreter's own; it is the parameter \<open>str_of\<close>.
\<close>

fun py_format_field :: "(pyval \<Rightarrow> string) \<Rightarrow> pyval \<Rightarrow> string" where
  "py_format_field str_of (PStr s) = s"
| "py_format_field str_of v = str_of v"

section \<open>The handler object\<close>

text \<open>
  The dictionary \<open>{'status': ..., 'content': ...}\<close> that \<open>on_recv\<close> builds on idle.
  \<open>content\<close> is \<open>None\<close> where the code stores Python's \<open>None\<close> there.
\<close>

record result =
  status :: nat
  content :: "string option"

text \<open>\<open>self.request\<close>; \<open>http_method\<close> is its attribute \<open>method\<close>.\<close>

record request =
  http_method :: string

text \<open>Calls made on the kernel pool and on the kernel client it hands out.\<close>

type_synonym kernel_id = string
type_synonym kernel_client = string

datatype pool_call =
    Acquire
  | OnRecv kernel_id
  | Execute kernel_client string
  | Release kernel_id

text \<open>
  The fields of \<open>NotebookAPIHandler\<close>. \<open>execution_future\<close> is tornado's \<open>Future\<close>,
  an object of the framework (\<open>asyncio.Future\<close> since tornado 5): \<open>None\<close> while it
  is pending, the result once \<open>set_result\<close> has given it one. \<open>kernel_pool\<close> is
  the log of the calls made on the pool. \<open>http_status\<close>, \<open>headers\<close>, \<open>written\<close>
  and \<open>finished\<close> are the response state that \<open>set_status\<close>, \<open>set_header\<close>,
  \<open>write\<close> and \<open>finish\<close> of the request handler act on; \<open>written\<close> lists the
  arguments of the \<open>write\<close> calls (\<open>write_chunk\<close> below).
\<close>

record handler =
  sources :: "string \<rightharpoonup> string"
  request :: request
  execute_result :: pyval
  stream_messages :: "pyval list"
  error_message :: "string option"
  parent_header :: string
  execution_future :: "result option"
  kernel_pool :: "pool_call list"
  http_status :: nat
  headers :: "(string \<times> string) list"
  written :: "string option list"
  finished :: bool

text \<open>
  \<open>self.execution_future.set_result(r)\<close>: a pending future takes the result; a
  future that has one keeps it and the call raises \<open>InvalidStateError\<close>.
\<close>

definition set_result :: "result \<Rightarrow> handler \<Rightarrow> py_error + handler" where
  "set_result r self =
     (case execution_future self of
        None \<Rightarrow> Inr (self\<lparr>execution_future := Some r\<rparr>)
      | Some r0 \<Rightarrow> Inl InvalidStateError)"

section \<open>on_recv\<close>

text \<open>
  Lines 39 to 46: the result computed on idle. \<open>if self.error_message\<close> is false for
  \<open>None\<close> and for the empty string. In the second test the identity comparison
  \<open>self.execute_result is not ''\<close> is only reached for a true value, which is never
  an empty string.
\<close>

definition idle_result :: "handler \<Rightarrow> py_error + result" where
  "idle_result self =
     (if (case error_message self of None \<Rightarrow> False | Some s \<Rightarrow> s \<noteq> []) then
        Inr \<lparr>status = 500, content = error_message self\<rparr>
      else if py_truthy (execute_result self) \<and> execute_result self \<noteq> PStr [] then
        Inr \<lparr>status = 200, content = error_message self\<rparr>
      else
        py_bind (py_join (stream_messages self))
          (\<lambda>s. Inr \<lparr>status = 200, content = Some s\<rparr>))"

text \<open>Lines 56 to 59: the format string ends in a space and a newline.\<close>

definition format_error :: "(pyval \<Rightarrow> string) \<Rightarrow> pyval \<Rightarrow> pyval \<Rightarrow> string" where
  "format_error str_of ename evalue =
     ''Error '' @ py_format_field str_of ename @ '': '' @
     py_format_field str_of evalue @ '' '' @ [CHR 0x0A]"

text \<open>
  \<open>on_recv(self, msg)\<close>. Every subscript can raise, in the order the code evaluates
  them; the assignment or call of a branch is its last step, and a \<open>set_result\<close>
  that raises leaves the future as it was, so a call that raises has changed nothing. \<open>msg['header']['msg_type']\<close> is read once here: the later
  \<open>elif\<close> tests read the same value again.
\<close>

definition on_recv :: "(pyval \<Rightarrow> string) \<Rightarrow> handler \<Rightarrow> pyval \<Rightarrow> py_error + handler" where
  "on_recv str_of self msg =
     py_bind (py_getitem2 msg ''parent_header'' ''msg_id'') (\<lambda>key.
     if key = PStr (parent_header self) then
       py_bind (py_getitem2 msg ''header'' ''msg_type'') (\<lambda>msg_type.
       py_bind (if msg_type = PStr ''status''
                then py_bind (py_getitem2 msg ''content'' ''execution_state'')
                       (\<lambda>st. Inr (st = PStr ''idle''))
                else Inr False) (\<lambda>idle.
       if idle then
         py_bind (idle_result self) (\<lambda>r. set_result r self)
       else if msg_type = PStr ''execute_result'' then
         py_bind (py_getitem2 msg ''content'' ''data'')
           (\<lambda>d. Inr (self\<lparr>execute_result := d\<rparr>))
       else if msg_type = PStr ''stream'' then
         py_bind (py_getitem2 msg ''content'' ''text'')
           (\<lambda>t. Inr (self\<lparr>stream_messages := stream_messages self @ [t]\<rparr>))
       else if msg_type = PStr ''error'' then
         py_bind (py_getitem2 msg ''content'' ''ename'') (\<lambda>ename.
         py_bind (py_getitem2 msg ''content'' ''evalue'') (\<lambda>evalue.
         Inr (self\<lparr>error_message := Some (format_error str_of ename evalue)\<rparr>)))
       else Inr self))
     else Inr self)"

text \<open>
  The listener called once per message, in arrival order; the first exception raised
  by a call is the outcome.
\<close>

fun on_recv_all :: "(pyval \<Rightarrow> string) \<Rightarrow> handler \<Rightarrow> pyval list \<Rightarrow> py_error + handler" where
  "on_recv_all str_of self [] = Inr self"
| "on_recv_all str_of self (msg # msgs) =
     py_bind (on_recv str_of self msg) (\<lambda>self'. on_recv_all str_of self' msgs)"

text \<open>
  The listener as the pool drives it: called once per message, in arrival order. An
  exception goes to the pool that made the call; the handler is as it was before the
  call, and the next message is delivered to it.
\<close>

fun deliver :: "(pyval \<Rightarrow> string) \<Rightarrow> handler \<Rightarrow> pyval list \<Rightarrow> handler" where
  "deliver str_of self [] = self"
| "deliver str_of self (msg # msgs) =
     (case on_recv str_of self msg of
        Inl e \<Rightarrow> deliver str_of self msgs
      | Inr self' \<Rightarrow> deliver str_of self' msgs)"

subsection \<open>Kinds of message\<close>

text \<open>
  What a message is to a handler whose correlation key is \<open>k\<close>, read off the fields
  the way \<open>on_recv\<close> reads them.
\<close>

definition has_key :: "string \<Rightarrow> pyval \<Rightarrow> bool" where
  "has_key k msg = (py_getitem2 msg ''parent_header'' ''msg_id'' = Inr (PStr k))"

definition has_type :: "string \<Rightarrow> pyval \<Rightarrow> bool" where
  "has_type t msg = (py_getitem2 msg ''header'' ''msg_type'' = Inr (PStr t))"

definition is_idle :: "string \<Rightarrow> pyval \<Rightarrow> bool" where
  "is_idle k msg =
     (has_key k msg \<and> has_type ''status'' msg \<and>
      py_getitem2 msg ''content'' ''execution_state'' = Inr (PStr ''idle''))"

definition is_execute_result :: "string \<Rightarrow> pyval \<Rightarrow> pyval \<Rightarrow> bool" where
  "is_execute_result k msg d =
     (has_key k msg \<and> has_type ''execute_result'' msg \<and>
      py_getitem2 msg ''content'' ''data'' = Inr d)"

definition is_stream :: "string \<Rightarrow> pyval \<Rightarrow> pyval \<Rightarrow> bool" where
  "is_stream k msg t =
     (has_key k msg \<and> has_type ''stream'' msg \<and>
      py_getitem2 msg ''content'' ''text'' = Inr t)"

definition is_error :: "string \<Rightarrow> pyval \<Rightarrow> pyval \<Rightarrow> pyval \<Rightarrow> bool" where
  "is_error k msg ename evalue =
     (has_key k msg \<and> has_type ''error'' msg \<and>
      py_getitem2 msg ''content'' ''ename'' = Inr ename \<and>
      py_getitem2 msg ''content'' ''evalue'' = Inr evalue)"

text \<open>Messages as a kernel sends them, for concrete runs.\<close>

definition mk_msg :: "string \<Rightarrow> string \<Rightarrow> (string \<times> pyval) list \<Rightarrow> pyval" where
  "mk_msg k t c =
     PDict [(''header'', PDict [(''msg_id'', PStr ''m''), (''msg_type'', PStr t)]),
            (''parent_header'', PDict [(''msg_id'', PStr k)]),
            (''content'', PDict c)]"

definition idle_msg :: "string \<Rightarrow> pyval" where
  "idle_msg k = mk_msg k ''status'' [(''execution_state'', PStr ''idle'')]"

definition stream_msg :: "string \<Rightarrow> string \<Rightarrow> pyval" where
  "stream_msg k t = mk_msg k ''stream'' [(''name'', PStr ''stdout''), (''text'', PStr t)]"

definition execute_result_msg :: "string \<Rightarrow> pyval \<Rightarrow> pyval" where
  "execute_result_msg k d =
     mk_msg k ''execute_result'' [(''execution_count'', PInt 1), (''data'', d)]"

definition error_msg :: "string \<Rightarrow> string \<Rightarrow> string \<Rightarrow> pyval" where
  "error_msg k n v =
     mk_msg k ''error'' [(''ename'', PStr n), (''evalue'', PStr v), (''traceback'', PList [])]"

text \<open>A handler as \<open>_handle_request\<close> leaves it when it starts to wait, with key \<open>k\<close>.\<close>

definition waiting :: "string \<Rightarrow> handler" where
  "waiting k =
     \<lparr>sources = Map.empty, request = \<lparr>http_method = ''GET''\<rparr>, execute_result = PNone,
      stream_messages = [], error_message = None, parent_header = k,
      execution_future = None, kernel_pool = [], http_status = 200, headers = [],
      written = [], finished = False\<rparr>"

section \<open>_handle_request\<close>

text \<open>
  \<open>_handle_request\<close> is a coroutine. What its collaborators do is the environment of
  a run: what each \<open>yield\<close> resumes with and which external call raises. A
  \<open>yield\<close> resumes with a value, resumes with an exception, or never resumes.
\<close>

datatype 'a awaited = Resolved 'a | Failed py_error | Never

text \<open>
  While the coroutine waits on \<open>execution_future\<close>, the pool calls the registered
  listener with a message, or an exception is thrown into the coroutine at the
  \<open>yield\<close>.
\<close>

datatype event = Deliver pyval | Throw py_error

datatype outcome = Returned | Raised py_error | Suspended

text \<open>
  \<open>pool_acquire\<close>: what \<open>yield self.kernel_pool.acquire()\<close> resumes with.
  \<open>pool_on_recv\<close>: the exception \<open>self.kernel_pool.on_recv\<close> raises, if any.
  \<open>request_code\<close>: lines 85 to 92, the request serialised by \<open>json.dumps\<close> and the
  helpers of \<open>request_utils\<close> (\<open>parse_body\<close>, \<open>parse_args\<close>, \<open>headers_to_dict\<close>,
  \<open>format_request\<close>), which are not part of this module: the code string, or the
  exception raised on the way.
  \<open>execute_request\<close>, \<open>execute_source\<close>: the two \<open>kernel_client.execute\<close> calls; the
  second returns the message id.
  \<open>arrivals\<close>: what happens, in order, while the coroutine waits.
  \<open>web_write\<close>: the exception \<open>self.write\<close> raises for a chunk, if any.
  \<open>pool_release\<close>: the exception \<open>self.kernel_pool.release\<close> raises, if any.
\<close>

record env =
  pool_acquire :: "(kernel_client \<times> kernel_id) awaited"
  pool_on_recv :: "py_error option"
  request_code :: "py_error + string"
  execute_request :: "py_error option"
  execute_source :: "py_error + string"
  arrivals :: "event list"
  web_write :: "string option \<Rightarrow> py_error option"
  pool_release :: "py_error option"

definition set_status :: "nat \<Rightarrow> handler \<Rightarrow> handler" where
  "set_status code self = self\<lparr>http_status := code\<rparr>"

definition set_header :: "string \<Rightarrow> string \<Rightarrow> handler \<Rightarrow> handler" where
  "set_header name v self = self\<lparr>headers := headers self @ [(name, v)]\<rparr>"

definition write_chunk :: "string option \<Rightarrow> handler \<Rightarrow> handler" where
  "write_chunk chunk self = self\<lparr>written := written self @ [chunk]\<rparr>"

definition finish :: "handler \<Rightarrow> handler" where
  "finish self = self\<lparr>finished := True\<rparr>"

definition pool_called :: "pool_call \<Rightarrow> handler \<Rightarrow> handler" where
  "pool_called c self = self\<lparr>kernel_pool := kernel_pool self @ [c]\<rparr>"

text \<open>
  \<open>result = yield self.execution_future\<close>. The coroutine resumes with the result
  as soon as the future has one. An exception raised by the listener goes to the pool
  that called it, not to the coroutine, and has changed no field.
\<close>

fun await_execution :: "(pyval \<Rightarrow> string) \<Rightarrow> handler \<Rightarrow> event list \<Rightarrow> handler \<times> result awaited" where
  "await_execution str_of self [] = (self, Never)"
| "await_execution str_of self (Throw e # evs) = (self, Failed e)"
| "await_execution str_of self (Deliver msg # evs) =
     (case on_recv str_of self msg of
        Inl e \<Rightarrow> await_execution str_of self evs
      | Inr self' \<Rightarrow>
          (case execution_future self' of
             None \<Rightarrow> await_execution str_of self' evs
           | Some r \<Rightarrow> (self', Resolved r)))"

text \<open>Lines 79 to 103, the body of the \<open>try\<close>.\<close>

definition try_body ::
  "(pyval \<Rightarrow> string) \<Rightarrow> env \<Rightarrow> kernel_client \<Rightarrow> kernel_id \<Rightarrow> handler \<Rightarrow> outcome \<times> handler" where
  "try_body str_of env client kid self0 =
     (let self1 = pool_called (OnRecv kid) self0 in
      case pool_on_recv env of Some e \<Rightarrow> (Raised e, self1) | None \<Rightarrow>
      case sources self1 (http_method (request self1)) of
        None \<Rightarrow> (Raised (KeyError (http_method (request self1))), self1)
      | Some source_code \<Rightarrow>
      case request_code env of Inl e \<Rightarrow> (Raised e, self1) | Inr code \<Rightarrow>
      let self2 = pool_called (Execute client code) self1 in
      case execute_request env of Some e \<Rightarrow> (Raised e, self2) | None \<Rightarrow>
      let self3 = pool_called (Execute client source_code) self2 in
      case execute_source env of Inl e \<Rightarrow> (Raised e, self3) | Inr msg_id \<Rightarrow>
      let self4 = self3\<lparr>parent_header := msg_id\<rparr> in
      case await_execution str_of self4 (arrivals env) of
        (self5, Never) \<Rightarrow> (Suspended, self5)
      | (self5, Failed e) \<Rightarrow> (Raised e, self5)
      | (self5, Resolved r) \<Rightarrow>
          let self6 = set_status (status r) (set_header ''Content-Type'' ''text/plain'' self5) in
          case web_write env (content r) of
            Some e \<Rightarrow> (Raised e, self6)
          | None \<Rightarrow> (Returned, write_chunk (content r) self6))"

text \<open>
  Lines 104 to 107, the \<open>finally\<close>: it runs when the body returns or raises, not
  while the body is suspended. An exception of \<open>release\<close> replaces the body's.
\<close>

definition finally_release :: "env \<Rightarrow> kernel_id \<Rightarrow> outcome \<times> handler \<Rightarrow> outcome \<times> handler" where
  "finally_release env kid body =
     (case body of
        (Suspended, self) \<Rightarrow> (Suspended, self)
      | (out, self) \<Rightarrow>
          let self' = pool_called (Release kid) self in
          (case pool_release env of
             Some e \<Rightarrow> (Raised e, self')
           | None \<Rightarrow> (out, finish self')))"

definition handle_request :: "(pyval \<Rightarrow> string) \<Rightarrow> env \<Rightarrow> handler \<Rightarrow> outcome \<times> handler" where
  "handle_request str_of env self0 =
     (let self1 = self0\<lparr>execute_result := PNone, stream_messages := [], error_message := None\<rparr> in
      if http_method (request self1) \<notin> dom (sources self1) then
        (Returned, finish (set_status 405 self1))
      else
        let self2 = self1\<lparr>execution_future := None\<rparr>;
            self3 = pool_called Acquire self2 in
        case pool_acquire env of
          Never \<Rightarrow> (Suspended, self3)
        | Failed e \<Rightarrow> (Raised e, self3)
        | Resolved (client, kid) \<Rightarrow>
            finally_release env kid (try_body str_of env client kid self3))"

section \<open>Predicates and inputs for the statements\<close>

text \<open>
  The value of \<open>str_of\<close> in concrete runs; none of them formats an object that is
  not a string.
\<close>

definition str_unused :: "pyval \<Rightarrow> string" where
  "str_unused v = []"





text \<open>A handler configured for \<open>GET\<close> only, and a run whose second submission fails.\<close>

definition get_handler :: handler where
  "get_handler = (waiting ''previous'')\<lparr>sources := [''GET'' \<mapsto> ''print(1+1)'']\<rparr>"

definition env_submit_fails :: env where
  "env_submit_fails =
     \<lparr>pool_acquire = Resolved (''client'', ''kernel-1''), pool_on_recv = None,
      request_code = Inr ''REQUEST = {}'', execute_request = None,
      execute_source = Inl (ExternalError ''channel closed''), arrivals = [],
      web_write = (\<lambda>chunk. None), pool_release = None\<rparr>"

section \<open>Facts about the model\<close>

lemma py_bind_Inl: "py_bind (Inl e) f = Inl e"
  by (simp add: py_bind_def)

lemma py_bind_Inr: "py_bind (Inr v) f = f v"
  by (simp add: py_bind_def)

lemma py_bind_eq_Inr: "py_bind r f = Inr y \<longleftrightarrow> (\<exists>v. r = Inr v \<and> f v = Inr y)"
  by (cases r) (simp_all add: py_bind_def)

lemma on_recv_all_append:
  "on_recv_all str_of self (xs @ ys) =
     py_bind (on_recv_all str_of self xs) (\<lambda>self'. on_recv_all str_of self' ys)"
proof (induction xs arbitrary: self)
  case Nil
  show ?case by (simp add: py_bind_Inr)
next
  case (Cons x xs)
  show ?case
  proof (cases "on_recv str_of self x")
    case (Inl e)
    then show ?thesis by (simp add: py_bind_Inl)
  next
    case (Inr h)
    then show ?thesis by (simp add: py_bind_Inr Cons.IH)
  qed
qed

lemma on_recv_idle:
  assumes "is_idle (parent_header self) msg"
  shows "on_recv str_of self msg = py_bind (idle_result self) (\<lambda>r. set_result r self)"
  using assms by (simp add: on_recv_def is_idle_def has_key_def has_type_def py_bind_Inr)

lemma on_recv_execute_result:
  assumes "is_execute_result (parent_header self) msg d"
  shows "on_recv str_of self msg = Inr (self\<lparr>execute_result := d\<rparr>)"
  using assms by (simp add: on_recv_def is_execute_result_def has_key_def has_type_def py_bind_Inr)

lemma on_recv_stream:
  assumes "is_stream (parent_header self) msg t"
  shows "on_recv str_of self msg = Inr (self\<lparr>stream_messages := stream_messages self @ [t]\<rparr>)"
  using assms by (simp add: on_recv_def is_stream_def has_key_def has_type_def py_bind_Inr)

lemma on_recv_error:
  assumes "is_error (parent_header self) msg ename evalue"
  shows "on_recv str_of self msg =
           Inr (self\<lparr>error_message := Some (format_error str_of ename evalue)\<rparr>)"
  using assms by (simp add: on_recv_def is_error_def has_key_def has_type_def py_bind_Inr)

lemma on_recv_cases:
  assumes run: "on_recv str_of self msg = Inr self'"
  shows "self' = self
       \<or> (is_idle (parent_header self) msg \<and>
           (\<exists>r. idle_result self = Inr r \<and> execution_future self = None \<and>
                self' = self\<lparr>execution_future := Some r\<rparr>))
       \<or> (\<exists>d. is_execute_result (parent_header self) msg d \<and> self' = self\<lparr>execute_result := d\<rparr>)
       \<or> (\<exists>t. is_stream (parent_header self) msg t \<and> self' = self\<lparr>stream_messages := stream_messages self @ [t]\<rparr>)
       \<or> (\<exists>n v. is_error (parent_header self) msg n v \<and> self' = self\<lparr>error_message := Some (format_error str_of n v)\<rparr>)"
proof (cases "py_getitem2 msg ''parent_header'' ''msg_id''")
  case (Inl e)
  with run show ?thesis by (simp add: on_recv_def py_bind_Inl)
next
  case key: (Inr key)
  show ?thesis
  proof (cases "key = PStr (parent_header self)")
    case False
    with key run show ?thesis by (simp add: on_recv_def py_bind_Inr)
  next
    case mine: True
    show ?thesis
    proof (cases "py_getitem2 msg ''header'' ''msg_type''")
      case (Inl e)
      with key mine run show ?thesis by (simp add: on_recv_def py_bind_Inr py_bind_Inl)
    next
      case ty: (Inr t)
      consider (status) "t = PStr ''status''" | (res) "t = PStr ''execute_result''"
        | (stream) "t = PStr ''stream''" | (err) "t = PStr ''error''"
        | (other) "t \<noteq> PStr ''status''" "t \<noteq> PStr ''execute_result''"
                  "t \<noteq> PStr ''stream''" "t \<noteq> PStr ''error''"
        by blast
      then show ?thesis
      proof cases
        case status
        show ?thesis
        proof (cases "py_getitem2 msg ''content'' ''execution_state''")
          case (Inl e)
          with key mine ty status run show ?thesis
            by (simp add: on_recv_def py_bind_Inr py_bind_Inl)
        next
          case st: (Inr st)
          show ?thesis
          proof (cases "st = PStr ''idle''")
            case True
            with key mine ty status st have "is_idle (parent_header self) msg"
              by (simp add: is_idle_def has_key_def has_type_def)
            moreover from this run obtain r where "idle_result self = Inr r"
              "execution_future self = None" "self' = self\<lparr>execution_future := Some r\<rparr>"
              by (auto simp: on_recv_idle py_bind_eq_Inr set_result_def split: option.splits)
            ultimately show ?thesis by blast
          next
            case False
            with key mine ty status st run show ?thesis
              by (simp add: on_recv_def py_bind_Inr)
          qed
        qed
      next
        case res
        show ?thesis
        proof (cases "py_getitem2 msg ''content'' ''data''")
          case (Inl e)
          with key mine ty res run show ?thesis
            by (simp add: on_recv_def py_bind_Inr py_bind_Inl)
        next
          case (Inr d)
          with key mine ty res have k: "is_execute_result (parent_header self) msg d"
            by (simp add: is_execute_result_def has_key_def has_type_def)
          with run have "self' = self\<lparr>execute_result := d\<rparr>"
            by (simp add: on_recv_execute_result)
          with k show ?thesis by blast
        qed
      next
        case stream
        show ?thesis
        proof (cases "py_getitem2 msg ''content'' ''text''")
          case (Inl e)
          with key mine ty stream run show ?thesis
            by (simp add: on_recv_def py_bind_Inr py_bind_Inl)
        next
          case (Inr x)
          with key mine ty stream have k: "is_stream (parent_header self) msg x"
            by (simp add: is_stream_def has_key_def has_type_def)
          with run have "self' = self\<lparr>stream_messages := stream_messages self @ [x]\<rparr>"
            by (simp add: on_recv_stream)
          with k show ?thesis by blast
        qed
      next
        case err
        show ?thesis
        proof (cases "py_getitem2 msg ''content'' ''ename''")
          case (Inl e)
          with key mine ty err run show ?thesis
            by (simp add: on_recv_def py_bind_Inr py_bind_Inl)
        next
          case n: (Inr n)
          show ?thesis
          proof (cases "py_getitem2 msg ''content'' ''evalue''")
            case (Inl e)
            with key mine ty err n run show ?thesis
              by (simp add: on_recv_def py_bind_Inr py_bind_Inl)
          next
            case (Inr v)
            with key mine ty err n have k: "is_error (parent_header self) msg n v"
              by (simp add: is_error_def has_key_def has_type_def)
            with run have "self' = self\<lparr>error_message := Some (format_error str_of n v)\<rparr>"
              by (simp add: on_recv_error)
            with k show ?thesis by blast
          qed
        qed
      next
        case other
        with key mine ty run show ?thesis
          by (simp add: on_recv_def py_bind_Inr)
      qed
    qed
  qed
qed

lemma on_recv_parent_header:
  "on_recv str_of self msg = Inr self' \<Longrightarrow> parent_header self' = parent_header self"
  by (drule on_recv_cases) auto

lemma on_recv_all_parent_header:
  "on_recv_all str_of self msgs = Inr self' \<Longrightarrow> parent_header self' = parent_header self"
proof (induction msgs arbitrary: self)
  case Nil
  then show ?case by simp
next
  case (Cons m ms)
  from Cons.prems obtain h where h: "on_recv str_of self m = Inr h" "on_recv_all str_of h ms = Inr self'"
    by (auto simp: py_bind_eq_Inr)
  from Cons.IH [OF h(2)] on_recv_parent_header [OF h(1)] show ?case by simp
qed

lemmas run_defs =
  on_recv_def py_getitem2_def py_bind_def idle_result_def set_result_def format_error_def
  mk_msg_def idle_msg_def stream_msg_def execute_result_msg_def error_msg_def waiting_def
  str_unused_def

lemmas kind_defs =
  is_idle_def is_stream_def is_execute_result_def is_error_def has_key_def has_type_def





lemma on_recv_error_message_kept:
  assumes "on_recv str_of self msg = Inr self'"
      and "\<not> (has_key (parent_header self) msg \<and> has_type ''error'' msg)"
  shows "error_message self' = error_message self"
  using on_recv_cases [OF assms(1)] assms(2)
  by (auto simp: is_error_def)

lemma on_recv_all_error_message_kept:
  assumes "on_recv_all str_of self msgs = Inr self'"
      and "\<forall>m\<in>set msgs. \<not> (has_key (parent_header self) m \<and> has_type ''error'' m)"
  shows "error_message self' = error_message self"
  using assms
proof (induction msgs arbitrary: self)
  case Nil
  then show ?case by simp
next
  case (Cons m ms)
  from Cons.prems(1) obtain h where h: "on_recv str_of self m = Inr h" "on_recv_all str_of h ms = Inr self'"
    by (auto simp: py_bind_eq_Inr)
  have k: "parent_header h = parent_header self"
    by (rule on_recv_parent_header [OF h(1)])
  have "error_message self' = error_message h"
    using Cons.IH [OF h(2)] Cons.prems(2) k by simp
  also have "error_message h = error_message self"
    using on_recv_error_message_kept [OF h(1)] Cons.prems(2) by simp
  finally show ?case .
qed

lemma format_error_not_empty: "format_error str_of n v \<noteq> []"
  by (simp add: format_error_def)

lemma py_join_strings: "py_join (map PStr ts) = Inr (concat ts)"
  by (induction ts) (simp_all add: py_bind_Inr)

lemma on_recv_all_streams:
  assumes "list_all2 (\<lambda>m t. is_stream k m (PStr t)) msgs texts"
      and "parent_header self = k"
  shows "on_recv_all str_of self msgs =
           Inr (self\<lparr>stream_messages := stream_messages self @ map PStr texts\<rparr>)"
  using assms
proof (induction msgs texts arbitrary: self rule: list_all2_induct)
  case Nil
  then show ?case by simp
next
  case (Cons m ms t ts)
  let ?h = "self\<lparr>stream_messages := stream_messages self @ [PStr t]\<rparr>"
  have step: "on_recv str_of self m = Inr ?h"
    using Cons.hyps(1) Cons.prems by (simp add: on_recv_stream)
  have "on_recv_all str_of ?h ms = Inr (?h\<lparr>stream_messages := stream_messages ?h @ map PStr ts\<rparr>)"
    using Cons.prems by (intro Cons.IH) simp
  with step show ?case by (simp add: py_bind_Inr)
qed

lemma on_recv_kernel_pool:
  "on_recv str_of self msg = Inr self' \<Longrightarrow> kernel_pool self' = kernel_pool self"
  by (drule on_recv_cases) auto

lemma await_execution_kernel_pool:
  "await_execution str_of self evs = (self', r) \<Longrightarrow> kernel_pool self' = kernel_pool self"
proof (induction str_of self evs rule: await_execution.induct)
  case (1 str_of self)
  then show ?case by simp
next
  case (2 str_of self e evs)
  then show ?case by simp
next
  case (3 str_of self msg evs)
  show ?case
  proof (cases "on_recv str_of self msg")
    case (Inl e)
    with 3 show ?thesis by simp
  next
    case (Inr h)
    note k = on_recv_kernel_pool [OF Inr]
    show ?thesis
    proof (cases "execution_future h")
      case None
      with 3 Inr k show ?thesis by simp
    next
      case (Some r)
      with 3 Inr k show ?thesis by auto
    qed
  qed
qed

lemma try_body_calls:
  assumes "try_body str_of env client kid self = (out, self')"
  shows "\<exists>calls. kernel_pool self' = kernel_pool self @ calls \<and>
                 Acquire \<notin> set calls \<and> (\<forall>k. Release k \<notin> set calls)"
proof -
  have w: "kernel_pool h' = kernel_pool h0"
    if "await_execution str_of h0 (arrivals env) = (h', r)" for h0 h' r
    using that by (rule await_execution_kernel_pool)
  show ?thesis
    using assms
    by (auto simp: try_body_def pool_called_def Let_def set_status_def set_header_def
          write_chunk_def dest!: w
          split: option.splits sum.splits prod.splits awaited.splits)
qed





lemma deliver_append:
  "deliver str_of self (xs @ ys) = deliver str_of (deliver str_of self xs) ys"
  by (induction xs arbitrary: self) (simp_all split: sum.splits)

lemma on_recv_resolved:
  assumes "execution_future self = Some r"
      and "on_recv str_of self msg = Inr self'"
  shows "execution_future self' = Some r"
  using on_recv_cases [OF assms(2)] assms(1) by auto

lemma deliver_resolved:
  assumes "execution_future self = Some r"
  shows "execution_future (deliver str_of self msgs) = Some r"
  using assms
proof (induction msgs arbitrary: self)
  case Nil
  then show ?case by simp
next
  case (Cons m ms)
  show ?case
  proof (cases "on_recv str_of self m")
    case (Inl e)
    with Cons show ?thesis by simp
  next
    case (Inr h)
    from on_recv_resolved [OF Cons.prems Inr] have "execution_future h = Some r" .
    from Cons.IH [OF this] Inr show ?thesis by simp
  qed
qed

lemma on_recv_idle_resolved:
  assumes "is_idle (parent_header self) msg"
      and "execution_future self = Some r"
  shows "isl (on_recv str_of self msg)"
  using assms
  by (cases "idle_result self") (simp_all add: on_recv_idle py_bind_def set_result_def)


lemma deliver_parent_header:
  "parent_header (deliver str_of self msgs) = parent_header self"
proof (induction msgs arbitrary: self)
  case Nil
  show ?case by simp
next
  case (Cons m ms)
  show ?case
  proof (cases "on_recv str_of self m")
    case (Inl e)
    with Cons show ?thesis by simp
  next
    case (Inr h)
    with Cons [of h] on_recv_parent_header [OF Inr] show ?thesis by simp
  qed
qed

section \<open>The claims\<close>

subsection \<open>Result present, no error\<close>

text \<open>
  C1. When an \<open>execute_result\<close> message with the correlation key has arrived and no
  error message has, the result produced on idle should have status 200 and the
  textual form of the structured result as its body. Line 44 assigns
  \<open>self.error_message\<close> instead of the result: for the run below, an
  \<open>execute_result\<close> carrying \<open>{'text/plain': '2'}\<close> followed by idle, the one
  \<open>set_result\<close> call gives the future status 200 and the content \<open>None\<close>. The status is as
  stated, the body is not the result.
\<close>

theorem execute_result_body_is_error_message:
  "map_sum id execution_future
     (on_recv_all str_unused (waiting ''k'')
        [execute_result_msg ''k'' (PDict [(''text/plain'', PStr ''2'')]), idle_msg ''k'']) =
   Inr (Some \<lparr>status = 200, content = None\<rparr>)"
  by (simp add: run_defs)

subsection \<open>Acquire and release\<close>

text \<open>
  C2. A request whose method is configured and to which the pool hands a kernel makes,
  whenever \<open>_handle_request\<close> returns or raises (the body completing, the
  translation, a submission or the listener registration raising, an exception thrown
  at the wait, the response write raising), exactly one \<open>acquire\<close> call and, after
  it, exactly one \<open>release\<close> call, for the kernel id that was acquired. The calls
  between the two are neither.
\<close>

theorem acquire_matched_by_one_release:
  assumes "http_method (request self) \<in> dom (sources self)"
      and "pool_acquire env = Resolved (client, kid)"
      and "handle_request str_of env self = (out, self')"
      and "out \<noteq> Suspended"
  shows "\<exists>calls. kernel_pool self' = kernel_pool self @ [Acquire] @ calls @ [Release kid] \<and>
                 Acquire \<notin> set calls \<and> (\<forall>k. Release k \<notin> set calls)"
proof -
  let ?h = "pool_called Acquire
              (self\<lparr>execute_result := PNone, stream_messages := [], error_message := None,
                 execution_future := None\<rparr>)"
  obtain out1 h1 where body: "try_body str_of env client kid ?h = (out1, h1)"
    by (cases "try_body str_of env client kid ?h")
  from assms(1,2,3) body have fin: "finally_release env kid (out1, h1) = (out, self')"
    by (simp add: handle_request_def Let_def)
  from try_body_calls [OF body] obtain calls where
    calls: "kernel_pool h1 = kernel_pool ?h @ calls" "Acquire \<notin> set calls"
      "\<forall>k. Release k \<notin> set calls"
    by blast
  from fin assms(4) have "kernel_pool self' = kernel_pool h1 @ [Release kid]"
    by (cases out1; cases "pool_release env")
       (auto simp: finally_release_def pool_called_def finish_def Let_def)
  with calls have "kernel_pool self' = kernel_pool self @ [Acquire] @ calls @ [Release kid]"
    by (simp add: pool_called_def)
  with calls(2,3) show ?thesis by blast
qed

text \<open>
  A run in which the second \<open>execute\<close> raises: the request ends with that
  exception and the kernel has been released.
\<close>

theorem acquire_matched_by_one_release_witness:
  "http_method (request get_handler) \<in> dom (sources get_handler) \<and>
   pool_acquire env_submit_fails = Resolved (''client'', ''kernel-1'') \<and>
   handle_request str_unused env_submit_fails get_handler =
     (Raised (ExternalError ''channel closed''),
      get_handler\<lparr>kernel_pool :=
          [Acquire, OnRecv ''kernel-1'', Execute ''client'' ''REQUEST = {}'',
           Execute ''client'' ''print(1+1)'', Release ''kernel-1''],
        finished := True\<rparr>) \<and>
   Raised (ExternalError ''channel closed'') \<noteq> Suspended \<and>
   (\<exists>calls.
      kernel_pool (get_handler\<lparr>kernel_pool :=
          [Acquire, OnRecv ''kernel-1'', Execute ''client'' ''REQUEST = {}'',
           Execute ''client'' ''print(1+1)'', Release ''kernel-1''],
        finished := True\<rparr>) =
      kernel_pool get_handler @ [Acquire] @ calls @ [Release ''kernel-1''] \<and>
      Acquire \<notin> set calls \<and> (\<forall>k. Release k \<notin> set calls))"
proof -
  have a: "http_method (request get_handler) \<in> dom (sources get_handler)"
    by (simp add: get_handler_def waiting_def)
  have b: "pool_acquire env_submit_fails = Resolved (''client'', ''kernel-1'')"
    by (simp add: env_submit_fails_def)
  have c: "handle_request str_unused env_submit_fails get_handler =
     (Raised (ExternalError ''channel closed''),
      get_handler\<lparr>kernel_pool :=
          [Acquire, OnRecv ''kernel-1'', Execute ''client'' ''REQUEST = {}'',
           Execute ''client'' ''print(1+1)'', Release ''kernel-1''],
        finished := True\<rparr>)"
    by (simp add: handle_request_def try_body_def finally_release_def pool_called_def
          finish_def get_handler_def waiting_def env_submit_fails_def)
  have d: "Raised (ExternalError ''channel closed'') \<noteq> Suspended"
    by simp
  from a b c d acquire_matched_by_one_release [OF a b c d] show ?thesis
    by simp
qed

subsection \<open>Error before idle\<close>

text \<open>
  C3. Let the listener have processed, without raising, a sequence of messages that
  contains an error message with the correlation key, \<open>err\<close> being the last such
  message, and let the future be pending. Then on the idle status message the
  future gets a result that has
  status 500 and the formatted error of \<open>err\<close> as its content, whatever stream,
  \<open>execute_result\<close> or other messages came before or after \<open>err\<close>.
\<close>

theorem error_before_idle_gives_500:
  assumes run: "on_recv_all str_of self (before @ [err] @ after) = Inr self'"
      and err: "is_error (parent_header self) err ename evalue"
      and last: "\<forall>m\<in>set after. \<not> (has_key (parent_header self) m \<and> has_type ''error'' m)"
      and idle: "is_idle (parent_header self) idle"
      and pending: "execution_future self' = None"
  shows "on_recv str_of self' idle =
           Inr (self'\<lparr>execution_future :=
                  Some \<lparr>status = 500, content = Some (format_error str_of ename evalue)\<rparr>\<rparr>)"
proof -
  from run obtain h1 h2 where
      h1: "on_recv_all str_of self before = Inr h1"
    and h2: "on_recv str_of h1 err = Inr h2"
    and h3: "on_recv_all str_of h2 after = Inr self'"
    by (auto simp: on_recv_all_append py_bind_eq_Inr)
  have k1: "parent_header h1 = parent_header self"
    by (rule on_recv_all_parent_header [OF h1])
  have k2: "parent_header h2 = parent_header self"
    using on_recv_parent_header [OF h2] k1 by simp
  have k3: "parent_header self' = parent_header self"
    using on_recv_all_parent_header [OF h3] k2 by simp
  have "h2 = h1\<lparr>error_message := Some (format_error str_of ename evalue)\<rparr>"
    using h2 err k1 by (simp add: on_recv_error)
  then have "error_message h2 = Some (format_error str_of ename evalue)"
    by simp
  moreover have "error_message self' = error_message h2"
    using on_recv_all_error_message_kept [OF h3] last k2 by simp
  ultimately have "idle_result self' =
      Inr \<lparr>status = 500, content = Some (format_error str_of ename evalue)\<rparr>"
    by (simp add: idle_result_def format_error_not_empty)
  then show ?thesis
    using idle k3 pending by (simp add: on_recv_idle py_bind_Inr set_result_def)
qed

theorem error_before_idle_gives_500_witness:
  "on_recv_all str_unused (waiting ''k'')
     ([stream_msg ''k'' ''a''] @ [error_msg ''k'' ''NameError'' ''x''] @
      [execute_result_msg ''k'' (PStr ''2''), stream_msg ''k'' ''b'']) =
     Inr ((waiting ''k'')\<lparr>execute_result := PStr ''2'',
            stream_messages := [PStr ''a'', PStr ''b''],
            error_message := Some (''Error NameError: x '' @ [CHR 0x0A])\<rparr>) \<and>
   is_error (parent_header (waiting ''k'')) (error_msg ''k'' ''NameError'' ''x'')
     (PStr ''NameError'') (PStr ''x'') \<and>
   \<not> (has_key (parent_header (waiting ''k'')) (execute_result_msg ''k'' (PStr ''2'')) \<and>
      has_type ''error'' (execute_result_msg ''k'' (PStr ''2''))) \<and>
   \<not> (has_key (parent_header (waiting ''k'')) (stream_msg ''k'' ''b'') \<and>
      has_type ''error'' (stream_msg ''k'' ''b'')) \<and>
   is_idle (parent_header (waiting ''k'')) (idle_msg ''k'') \<and>
   execution_future
     ((waiting ''k'')\<lparr>execute_result := PStr ''2'',
        stream_messages := [PStr ''a'', PStr ''b''],
        error_message := Some (''Error NameError: x '' @ [CHR 0x0A])\<rparr>) = None \<and>
   on_recv str_unused
     ((waiting ''k'')\<lparr>execute_result := PStr ''2'',
        stream_messages := [PStr ''a'', PStr ''b''],
        error_message := Some (''Error NameError: x '' @ [CHR 0x0A])\<rparr>)
     (idle_msg ''k'') =
   Inr ((waiting ''k'')\<lparr>execute_result := PStr ''2'',
        stream_messages := [PStr ''a'', PStr ''b''],
        error_message := Some (''Error NameError: x '' @ [CHR 0x0A]),
        execution_future :=
          Some \<lparr>status = 500, content = Some (''Error NameError: x '' @ [CHR 0x0A])\<rparr>\<rparr>)"
proof -
  have a: "on_recv_all str_unused (waiting ''k'')
     ([stream_msg ''k'' ''a''] @ [error_msg ''k'' ''NameError'' ''x''] @
      [execute_result_msg ''k'' (PStr ''2''), stream_msg ''k'' ''b'']) =
     Inr ((waiting ''k'')\<lparr>execute_result := PStr ''2'',
            stream_messages := [PStr ''a'', PStr ''b''],
            error_message := Some (''Error NameError: x '' @ [CHR 0x0A])\<rparr>)"
    by (simp add: run_defs)
  have b: "is_error (parent_header (waiting ''k'')) (error_msg ''k'' ''NameError'' ''x'')
     (PStr ''NameError'') (PStr ''x'')"
    by (simp add: kind_defs run_defs)
  have c: "\<forall>m\<in>set [execute_result_msg ''k'' (PStr ''2''), stream_msg ''k'' ''b''].
      \<not> (has_key (parent_header (waiting ''k'')) m \<and> has_type ''error'' m)"
    by (simp add: kind_defs run_defs)
  have d: "is_idle (parent_header (waiting ''k'')) (idle_msg ''k'')"
    by (simp add: kind_defs run_defs)
  have e: "execution_future
     ((waiting ''k'')\<lparr>execute_result := PStr ''2'',
        stream_messages := [PStr ''a'', PStr ''b''],
        error_message := Some (''Error NameError: x '' @ [CHR 0x0A])\<rparr>) = None"
    by (simp add: waiting_def)
  from a b c d e error_before_idle_gives_500 [OF a b c d e] show ?thesis
    by (simp add: format_error_def)
qed

subsection \<open>Streams only\<close>

text \<open>
  C4. From the fields as \<open>_handle_request\<close> resets them and a fresh future, stream
  messages with the
  correlation key and the texts \<open>texts\<close>, followed by the idle status message, are
  processed without raising, and the result the future gets has status 200
  and the concatenation of the texts in arrival order as its content (the empty
  string for no stream message).
\<close>

theorem streams_then_idle_concatenates:
  assumes fresh: "execute_result self = PNone" "stream_messages self = []" "error_message self = None"
      and pending: "execution_future self = None"
      and streams: "list_all2 (\<lambda>m t. is_stream (parent_header self) m (PStr t)) msgs texts"
      and idle: "is_idle (parent_header self) idle"
  shows "on_recv_all str_of self (msgs @ [idle]) =
           Inr (self\<lparr>stream_messages := map PStr texts,
                  execution_future := Some \<lparr>status = 200, content = Some (concat texts)\<rparr>\<rparr>)"
proof -
  let ?h = "self\<lparr>stream_messages := map PStr texts\<rparr>"
  have run: "on_recv_all str_of self msgs = Inr ?h"
    using on_recv_all_streams [OF streams refl, of str_of] fresh(2) by simp
  have "idle_result ?h = Inr \<lparr>status = 200, content = Some (concat texts)\<rparr>"
    using fresh by (simp add: idle_result_def py_join_strings py_bind_Inr)
  then have "on_recv str_of ?h idle =
      Inr (?h\<lparr>execution_future := Some \<lparr>status = 200, content = Some (concat texts)\<rparr>\<rparr>)"
    using idle pending by (simp add: on_recv_idle py_bind_Inr set_result_def)
  with run show ?thesis
    by (simp add: on_recv_all_append py_bind_Inr)
qed

theorem streams_then_idle_concatenates_witness:
  "execute_result (waiting ''k'') = PNone \<and> stream_messages (waiting ''k'') = [] \<and>
   error_message (waiting ''k'') = None \<and> execution_future (waiting ''k'') = None \<and>
   list_all2 (\<lambda>m t. is_stream (parent_header (waiting ''k'')) m (PStr t))
     [stream_msg ''k'' ''2'', stream_msg ''k'' ''!''] [''2'', ''!''] \<and>
   is_idle (parent_header (waiting ''k'')) (idle_msg ''k'') \<and>
   on_recv_all str_unused (waiting ''k'')
     ([stream_msg ''k'' ''2'', stream_msg ''k'' ''!''] @ [idle_msg ''k'']) =
   Inr ((waiting ''k'')\<lparr>stream_messages := [PStr ''2'', PStr ''!''],
          execution_future := Some \<lparr>status = 200, content = Some ''2!''\<rparr>\<rparr>)"
proof -
  have a: "execute_result (waiting ''k'') = PNone" "stream_messages (waiting ''k'') = []"
    "error_message (waiting ''k'') = None"
    by (simp_all add: waiting_def)
  have p: "execution_future (waiting ''k'') = None"
    by (simp add: waiting_def)
  have b: "list_all2 (\<lambda>m t. is_stream (parent_header (waiting ''k'')) m (PStr t))
     [stream_msg ''k'' ''2'', stream_msg ''k'' ''!''] [''2'', ''!'']"
    by (simp add: kind_defs run_defs)
  have c: "is_idle (parent_header (waiting ''k'')) (idle_msg ''k'')"
    by (simp add: kind_defs run_defs)
  from a p b c streams_then_idle_concatenates [OF a p b c, of str_unused] show ?thesis
    by simp
qed

subsection \<open>Messages of another execution\<close>

text \<open>
  C5. A message whose \<open>parent_header.msg_id\<close> is not the handler's
  \<open>parent_header\<close> leaves the handler as it was: \<open>execute_result\<close>,
  \<open>stream_messages\<close>, \<open>error_message\<close> and the future are unchanged, and the call
  returns.
\<close>

theorem other_key_leaves_handler_unchanged:
  assumes "py_getitem2 msg ''parent_header'' ''msg_id'' = Inr key"
      and "key \<noteq> PStr (parent_header self)"
  shows "on_recv str_of self msg = Inr self"
  using assms by (simp add: on_recv_def py_bind_Inr)

theorem other_key_leaves_handler_unchanged_witness:
  "py_getitem2 (stream_msg ''other'' ''x'') ''parent_header'' ''msg_id'' = Inr (PStr ''other'') \<and>
   PStr ''other'' \<noteq> PStr (parent_header (waiting ''k'')) \<and>
   on_recv str_unused (waiting ''k'') (stream_msg ''other'' ''x'') = Inr (waiting ''k'')"
proof -
  have a: "py_getitem2 (stream_msg ''other'' ''x'') ''parent_header'' ''msg_id'' = Inr (PStr ''other'')"
    by (simp add: run_defs)
  have b: "PStr ''other'' \<noteq> PStr (parent_header (waiting ''k''))"
    by (simp add: waiting_def)
  from a b other_key_leaves_handler_unchanged [OF a b, of str_unused] show ?thesis
    by simp
qed

subsection \<open>Resolution\<close>

text \<open>
  C6. When \<open>on_recv\<close> returns from an idle status message with the correlation key,
  the future was pending and now holds the result computed from the fields at that
  moment. Whatever messages are delivered afterwards, with the key or without, the
  future holds that same result: no branch of \<open>on_recv\<close> replaces the future, and
  a further idle status message with the key does not resolve it again, its
  \<open>set_result\<close> call raises. So one result is produced for the request and it is
  final.
\<close>

theorem terminal_result_is_final:
  assumes idle: "is_idle (parent_header self) idle"
      and resolves: "on_recv str_of self idle = Inr self'"
  shows "\<exists>r. idle_result self = Inr r \<and> execution_future self = None \<and>
             execution_future self' = Some r \<and>
             execution_future (deliver str_of self' after) = Some r \<and>
             (is_idle (parent_header self) again \<longrightarrow>
                isl (on_recv str_of (deliver str_of self' after) again))"
proof -
  from resolves idle obtain r where
    r: "idle_result self = Inr r" "execution_future self = None"
       "self' = self\<lparr>execution_future := Some r\<rparr>"
    by (auto simp: on_recv_idle py_bind_eq_Inr set_result_def split: option.splits)
  from r(3) have now: "execution_future self' = Some r" by simp
  have later: "execution_future (deliver str_of self' after) = Some r"
    by (rule deliver_resolved [OF now])
  have key: "parent_header (deliver str_of self' after) = parent_header self"
    using r(3) by (simp add: deliver_parent_header)
  have "isl (on_recv str_of (deliver str_of self' after) again)"
    if "is_idle (parent_header self) again"
    using that key later by (intro on_recv_idle_resolved) simp_all
  with r(1,2) now later show ?thesis by blast
qed

text \<open>
  A stream chunk, then the idle that resolves; after it another chunk, a second idle
  and an error message with the same key arrive. The result stays the first one and
  a third idle raises.
\<close>

theorem terminal_result_is_final_witness:
  "is_idle (parent_header ((waiting ''k'')\<lparr>stream_messages := [PStr ''a'']\<rparr>)) (idle_msg ''k'') \<and>
   on_recv str_unused ((waiting ''k'')\<lparr>stream_messages := [PStr ''a'']\<rparr>) (idle_msg ''k'') =
     Inr ((waiting ''k'')\<lparr>stream_messages := [PStr ''a''],
            execution_future := Some \<lparr>status = 200, content = Some ''a''\<rparr>\<rparr>) \<and>
   idle_result ((waiting ''k'')\<lparr>stream_messages := [PStr ''a'']\<rparr>) =
     Inr \<lparr>status = 200, content = Some ''a''\<rparr> \<and>
   execution_future
     (deliver str_unused
        ((waiting ''k'')\<lparr>stream_messages := [PStr ''a''],
           execution_future := Some \<lparr>status = 200, content = Some ''a''\<rparr>\<rparr>)
        [stream_msg ''k'' ''x'', idle_msg ''k'', error_msg ''k'' ''NameError'' ''y'']) =
     Some \<lparr>status = 200, content = Some ''a''\<rparr> \<and>
   isl (on_recv str_unused
     (deliver str_unused
        ((waiting ''k'')\<lparr>stream_messages := [PStr ''a''],
           execution_future := Some \<lparr>status = 200, content = Some ''a''\<rparr>\<rparr>)
        [stream_msg ''k'' ''x'', idle_msg ''k'', error_msg ''k'' ''NameError'' ''y''])
     (idle_msg ''k''))"
proof -
  let ?self = "(waiting ''k'')\<lparr>stream_messages := [PStr ''a'']\<rparr>"
  let ?self' = "(waiting ''k'')\<lparr>stream_messages := [PStr ''a''],
            execution_future := Some \<lparr>status = 200, content = Some ''a''\<rparr>\<rparr>"
  let ?after = "[stream_msg ''k'' ''x'', idle_msg ''k'', error_msg ''k'' ''NameError'' ''y'']"
  have a: "is_idle (parent_header ?self) (idle_msg ''k'')"
    by (simp add: kind_defs run_defs)
  have b: "on_recv str_unused ?self (idle_msg ''k'') = Inr ?self'"
    by (simp add: run_defs)
  have c: "idle_result ?self = Inr \<lparr>status = 200, content = Some ''a''\<rparr>"
    by (simp add: run_defs)
  from terminal_result_is_final [OF a b, of ?after "idle_msg ''k''"] a c
  have "execution_future (deliver str_unused ?self' ?after) =
          Some \<lparr>status = 200, content = Some ''a''\<rparr>"
    and "isl (on_recv str_unused (deliver str_unused ?self' ?after) (idle_msg ''k''))"
    by auto
  with a b c show ?thesis by simp
qed

subsection \<open>The error summary\<close>

text \<open>
  C7, as the code has it. Every error message with the correlation key assigns
  \<open>error_message\<close>, whatever it held before, and for a name and a value that are
  strings the text is \<open>Error <name>: <value>\<close> followed by a space and a newline.
\<close>

theorem error_message_last_write_wins:
  assumes "is_error (parent_header self) msg (PStr n) (PStr v)"
  shows "on_recv str_of self msg =
           Inr (self\<lparr>error_message := Some (''Error '' @ n @ '': '' @ v @ '' '' @ [CHR 0x0A])\<rparr>)"
  using assms by (simp add: on_recv_error format_error_def)

theorem error_message_last_write_wins_witness:
  "is_error (parent_header ((waiting ''k'')\<lparr>error_message := Some ''Error ValueError: x''\<rparr>))
     (error_msg ''k'' ''NameError'' ''y'') (PStr ''NameError'') (PStr ''y'') \<and>
   on_recv str_unused ((waiting ''k'')\<lparr>error_message := Some ''Error ValueError: x''\<rparr>)
     (error_msg ''k'' ''NameError'' ''y'') =
   Inr ((waiting ''k'')\<lparr>error_message := Some (''Error NameError: y '' @ [CHR 0x0A])\<rparr>)"
proof -
  have a: "is_error (parent_header ((waiting ''k'')\<lparr>error_message := Some ''Error ValueError: x''\<rparr>))
     (error_msg ''k'' ''NameError'' ''y'') (PStr ''NameError'') (PStr ''y'')"
    by (simp add: kind_defs run_defs)
  from a error_message_last_write_wins [OF a, of str_unused] show ?thesis
    by simp
qed

text \<open>
  C7 as stated fails: a second error message replaces the summary of the first, and
  the summary is not \<open>Error <name>: <value>\<close> alone.
\<close>

theorem error_message_set_once_counterexample:
  "map_sum id error_message
     (on_recv_all str_unused (waiting ''k'') [error_msg ''k'' ''ValueError'' ''x'']) =
   Inr (Some (''Error ValueError: x '' @ [CHR 0x0A])) \<and>
   map_sum id error_message
     (on_recv_all str_unused (waiting ''k'')
        [error_msg ''k'' ''ValueError'' ''x'', error_msg ''k'' ''NameError'' ''y'']) =
   Inr (Some (''Error NameError: y '' @ [CHR 0x0A])) \<and>
   ''Error ValueError: x '' @ [CHR 0x0A] \<noteq> ''Error ValueError: x''"
  by (simp add: run_defs)

subsection \<open>Exceptions of the listener\<close>




subsection \<open>Method without a source\<close>

text \<open>
  C9. When the request's method is not a key of \<open>sources\<close>, \<open>_handle_request\<close>
  returns with the status set to 405 and the response finished; no call has been made
  on the pool or on a kernel client, and nothing has been written.
\<close>

theorem unsupported_method_405_no_pool_calls:
  assumes "http_method (request self) \<notin> dom (sources self)"
  shows "case handle_request str_of env self of
           (out, self') \<Rightarrow>
             out = Returned \<and> http_status self' = 405 \<and> finished self' \<and>
             kernel_pool self' = kernel_pool self \<and> written self' = written self"
  using assms by (simp add: handle_request_def finish_def set_status_def)

theorem unsupported_method_405_no_pool_calls_witness:
  "http_method (request (get_handler\<lparr>request := \<lparr>http_method = ''PUT''\<rparr>\<rparr>)) \<notin>
     dom (sources (get_handler\<lparr>request := \<lparr>http_method = ''PUT''\<rparr>\<rparr>)) \<and>
   (case handle_request str_unused env_submit_fails
           (get_handler\<lparr>request := \<lparr>http_method = ''PUT''\<rparr>\<rparr>) of
      (out, self') \<Rightarrow>
        out = Returned \<and> http_status self' = 405 \<and> finished self' \<and>
        kernel_pool self' = kernel_pool (get_handler\<lparr>request := \<lparr>http_method = ''PUT''\<rparr>\<rparr>) \<and>
        written self' = written (get_handler\<lparr>request := \<lparr>http_method = ''PUT''\<rparr>\<rparr>))"
proof -
  have a: "http_method (request (get_handler\<lparr>request := \<lparr>http_method = ''PUT''\<rparr>\<rparr>)) \<notin>
     dom (sources (get_handler\<lparr>request := \<lparr>http_method = ''PUT''\<rparr>\<rparr>))"
    by (simp add: get_handler_def waiting_def)
  from a unsupported_method_405_no_pool_calls [OF a, of str_unused env_submit_fails]
  show ?thesis by simp
qed

subsection \<open>Reset of the aggregation fields\<close>

text \<open>
  C10. \<open>_handle_request\<close> assigns \<open>execute_result\<close>, \<open>stream_messages\<close> and
  \<open>error_message\<close> before anything else, so its outcome, the calls it makes, the
  response and the fields it leaves are the same whatever the three fields held
  when it was called. At its first \<open>yield\<close>, the call of \<open>acquire\<close>, which is
  its first call on the pool, the three fields are \<open>None\<close>, the empty list and
  \<open>None\<close>; so they are when it returns 405 without touching the pool.
\<close>

theorem handle_request_resets_aggregation:
  "handle_request str_of env
     (self\<lparr>execute_result := r, stream_messages := s, error_message := e\<rparr>) =
   handle_request str_of env self \<and>
   handle_request str_of (env\<lparr>pool_acquire := Never\<rparr>) self =
     (if http_method (request self) \<in> dom (sources self) then
        (Suspended,
         pool_called Acquire
           (self\<lparr>execute_result := PNone, stream_messages := [], error_message := None,
              execution_future := None\<rparr>))
      else
        (Returned,
         finish (set_status 405
           (self\<lparr>execute_result := PNone, stream_messages := [], error_message := None\<rparr>))))"
  by (simp add: handle_request_def)

end
